theory Spec2Isabelle
  imports Main
begin

section \<open>Values and boards\<close>

text \<open>
  The component \<^verbatim>\<open>components/tic-tac-toe.tsx\<close> works on the TypeScript types
  \<^verbatim>\<open>type Player = "X" | "O" | null\<close> and \<^verbatim>\<open>Player | "draw" | null\<close>.
  Both are unions of literals that the code compares with \<^verbatim>\<open>===\<close> and tests for
  truthiness, so one datatype of the run-time values holds them all. \<open>Undefined\<close> is what
  JavaScript reads from an array beyond its end (and from a slot that a store beyond the
  end left unassigned).
\<close>

datatype jsval = StrX | StrO | StrDraw | Null | Undefined

definition truthy :: "jsval \<Rightarrow> bool" where
  "truthy v = (v \<noteq> Null \<and> v \<noteq> Undefined)"

text \<open>\<^verbatim>\<open>squares[i]\<close>: a read beyond the end gives \<^verbatim>\<open>undefined\<close>.\<close>

definition at :: "jsval list \<Rightarrow> nat \<Rightarrow> jsval" where
  "at squares i = (if i < length squares then squares ! i else Undefined)"

text \<open>
  \<^verbatim>\<open>copy = [...squares]; copy[i] = v\<close>: a store beyond the end extends the array, the
  slots in between read as \<^verbatim>\<open>undefined\<close>.
\<close>

definition store :: "jsval list \<Rightarrow> nat \<Rightarrow> jsval \<Rightarrow> jsval list" where
  "store squares i v =
     (if i < length squares then squares[i := v]
      else squares @ replicate (i - length squares) Undefined @ [v])"

text \<open>\<^verbatim>\<open>squares.every((square) => square !== null)\<close>\<close>

definition everyNonNull :: "jsval list \<Rightarrow> bool" where
  "everyNonNull squares = list_all (\<lambda>square. square \<noteq> Null) squares"

text \<open>\<^verbatim>\<open>Array(9).fill(null)\<close>\<close>

definition emptyBoard :: "jsval list" where
  "emptyBoard = replicate 9 Null"

section \<open>The evaluator: calculateWinner and findWinningMove\<close>

definition lines :: "(nat \<times> nat \<times> nat) list" where
  "lines =
     [(0, 1, 2),
      (3, 4, 5),
      (6, 7, 8),
      (0, 3, 6),
      (1, 4, 7),
      (2, 5, 8),
      (0, 4, 8),
      (2, 4, 6)]"

text \<open>
  The \<^verbatim>\<open>for\<close> loop of \<^verbatim>\<open>calculateWinner\<close> over the table of lines: it returns
  \<^verbatim>\<open>squares[a]\<close> at the first line whose three cells are truthy and equal, and falls
  through (\<open>None\<close>) when no line is.
\<close>

fun checkLines :: "jsval list \<Rightarrow> (nat \<times> nat \<times> nat) list \<Rightarrow> jsval option" where
  "checkLines squares [] = None"
| "checkLines squares ((a, b, c) # rest) =
     (if truthy (at squares a) \<and> at squares a = at squares b \<and> at squares a = at squares c
      then Some (at squares a)
      else checkLines squares rest)"

definition calculateWinner :: "jsval list \<Rightarrow> jsval" where
  "calculateWinner squares =
     (case checkLines squares lines of
        Some w \<Rightarrow> w
      | None \<Rightarrow> if everyNonNull squares then StrDraw else Null)"

text \<open>
  The loop of \<^verbatim>\<open>findWinningMove\<close> runs \<^verbatim>\<open>i\<close> over \<^verbatim>\<open>0 .. squares.length - 1\<close>;
  \<open>tryMoves\<close> is that loop over the indices still to be tried. The result is a
  JavaScript number, \<open>-1\<close> when no move wins.
\<close>

fun tryMoves :: "jsval list \<Rightarrow> jsval \<Rightarrow> nat list \<Rightarrow> int" where
  "tryMoves squares player [] = - 1"
| "tryMoves squares player (i # rest) =
     (if at squares i = Null \<and> calculateWinner (store squares i player) = player
      then int i
      else tryMoves squares player rest)"

definition findWinningMove :: "jsval list \<Rightarrow> jsval \<Rightarrow> int" where
  "findWinningMove squares player = tryMoves squares player [0..<length squares]"

section \<open>The computer opponent's choice\<close>

text \<open>
  \<^verbatim>\<open>makeComputerMove\<close> reads the board, picks an index and hands it to
  \<^verbatim>\<open>handleSquareClick\<close>. \<open>computerChoice\<close> is the index it hands over, \<open>None\<close> where it
  returns without a call. \<^verbatim>\<open>Math.floor(Math.random() * n)\<close> is some index below \<open>n\<close>;
  the draw is the parameter \<open>rnd\<close>, reduced to that range.
\<close>

definition availableCorners :: "jsval list \<Rightarrow> nat list" where
  "availableCorners squaresCopy = filter (\<lambda>i. at squaresCopy i = Null) [0, 2, 6, 8]"

definition availableSquares :: "jsval list \<Rightarrow> nat list" where
  "availableSquares squaresCopy =
     filter (\<lambda>i. at squaresCopy i = Null) [0..<length squaresCopy]"

definition computerChoice :: "jsval list \<Rightarrow> nat \<Rightarrow> nat option" where
  "computerChoice squaresCopy rnd =
     (if truthy (calculateWinner squaresCopy) \<or> everyNonNull squaresCopy then None
      else if findWinningMove squaresCopy StrO \<noteq> - 1
        then Some (nat (findWinningMove squaresCopy StrO))
      else if findWinningMove squaresCopy StrX \<noteq> - 1
        then Some (nat (findWinningMove squaresCopy StrX))
      else if at squaresCopy 4 = Null then Some 4
      else if length (availableCorners squaresCopy) > 0
        then Some (availableCorners squaresCopy ! (rnd mod length (availableCorners squaresCopy)))
      else if length (availableSquares squaresCopy) > 0
        then Some (availableSquares squaresCopy ! (rnd mod length (availableSquares squaresCopy)))
      else None)"

section \<open>The session state\<close>

datatype GameMode = Local | Computer | Online

record GameHistory =
  h_squares :: "jsval list"
  h_currentPlayer :: jsval

record SimulatedGame =
  g_id :: string
  g_squares :: "jsval list"
  g_isXNext :: bool
  g_playerX :: string
  g_playerO :: "string option"
  g_winner :: jsval

text \<open>
  The notifications the component sends to the user (\<^verbatim>\<open>toast({title: ...})\<close>), by title.
\<close>

datatype toast =
  NotYourTurn | WaitingForOpponent | NotAvailable | GameReset | RoomCreated string
  | ItsADraw | PlayerWins jsval

text \<open>
  The React state of the component (its \<^verbatim>\<open>useState\<close> cells that the game logic reads or
  writes). A handler reads the values of the render it was created in and queues its
  writes, so each handler is a function from the state it sees to the next state. The
  toasts sent so far and the pending \<^verbatim>\<open>setTimeout\<close> join of a simulated opponent (by
  room) are kept as logs. Sounds, the clipboard and the WebSocket transport are not
  modelled. \<open>currentMove\<close> is only ever set to \<open>0\<close>, to a checked index of the history
  or to a length minus one of a non-empty list, so it is a natural number.
\<close>

record state =
  squares :: "jsval list"
  isXNext :: bool
  winner :: jsval
  history :: "GameHistory list"
  currentMove :: nat
  gameMode :: GameMode
  roomCode :: string
  isHost :: bool
  playerSymbol :: jsval
  opponentConnected :: bool
  isMyTurn :: bool
  simulatedGames :: "string \<rightharpoonup> SimulatedGame"
  useSimulatedMode :: bool
  showConfetti :: bool
  showLobby :: bool
  toasts :: "toast list"
  joinTimers :: "string list"

definition initialState :: state where
  "initialState =
     \<lparr>squares = emptyBoard, isXNext = True, winner = Null, history = [], currentMove = 0,
      gameMode = Computer, roomCode = [], isHost = False, playerSymbol = StrX,
      opponentConnected = False, isMyTurn = True, simulatedGames = Map.empty,
      useSimulatedMode = True, showConfetti = False, showLobby = False, toasts = [],
      joinTimers = []\<rparr>"

definition updateSimulatedGame ::
  "(string \<rightharpoonup> SimulatedGame) \<Rightarrow> string \<Rightarrow> SimulatedGame \<Rightarrow> (string \<rightharpoonup> SimulatedGame)" where
  "updateSimulatedGame prev gameId updatedGame = prev(gameId \<mapsto> updatedGame)"

text \<open>
  The effect \<^verbatim>\<open>// Calculate winner\<close>, which React runs after a render in which
  \<^verbatim>\<open>squares\<close> changed: it stores the evaluation of the board in \<^verbatim>\<open>winner\<close> and
  announces a decided game. The sounds and the timer that hides the confetti again are
  left out.
\<close>

definition winnerEffect :: "state \<Rightarrow> state" where
  "winnerEffect st =
     (let calculatedWinner = calculateWinner (squares st);
          st1 = st\<lparr>winner := calculatedWinner\<rparr>
      in if truthy calculatedWinner then
           (let st2 = (if calculatedWinner = StrDraw
                       then st1\<lparr>toasts := toasts st @ [ItsADraw], showConfetti := False\<rparr>
                       else st1\<lparr>toasts := toasts st @ [PlayerWins calculatedWinner],
                                showConfetti := True\<rparr>)
            in if gameMode st = Online \<and> useSimulatedMode st \<and> roomCode st \<noteq> [] then
                 (case simulatedGames st (roomCode st) of
                    Some game \<Rightarrow>
                      st2\<lparr>simulatedGames :=
                            updateSimulatedGame (simulatedGames st) (roomCode st)
                              (game\<lparr>g_winner := calculatedWinner\<rparr>)\<rparr>
                  | None \<Rightarrow> st2)
               else st2)
         else st1)"

section \<open>The handlers\<close>

text \<open>
  \<^verbatim>\<open>handleSquareClick\<close>: the four guards return early, in the source's order; two of them
  send a toast first. Otherwise the mark is stored, the turn passes and the history is cut
  after the current move and extended by the new snapshot.
\<close>

definition handleSquareClick :: "state \<Rightarrow> nat \<Rightarrow> state" where
  "handleSquareClick st i =
     (if truthy (winner st) \<or> truthy (at (squares st) i) then st
      else if gameMode st = Online \<and> \<not> isMyTurn st
        then st\<lparr>toasts := toasts st @ [NotYourTurn]\<rparr>
      else if gameMode st = Online \<and> \<not> opponentConnected st
        then st\<lparr>toasts := toasts st @ [WaitingForOpponent]\<rparr>
      else if gameMode st = Computer \<and> \<not> isXNext st then st
      else
        (let newSquares =
               store (squares st) i
                 (if gameMode st = Online then playerSymbol st
                  else if isXNext st then StrX else StrO);
             newHistory =
               take (currentMove st + 1) (history st) @
                 [\<lparr>h_squares = newSquares,
                   h_currentPlayer = (if isXNext st then StrX else StrO)\<rparr>]
         in st\<lparr>squares := newSquares,
               isXNext := (if gameMode st \<noteq> Online then \<not> isXNext st else isXNext st),
               isMyTurn := (if gameMode st \<noteq> Online then isMyTurn st else False),
               simulatedGames :=
                 (if gameMode st = Online \<and> useSimulatedMode st \<and> roomCode st \<noteq> [] then
                    (case simulatedGames st (roomCode st) of
                       Some game \<Rightarrow>
                         updateSimulatedGame (simulatedGames st) (roomCode st)
                           (game\<lparr>g_squares := newSquares, g_isXNext := \<not> g_isXNext game\<rparr>)
                     | None \<Rightarrow> simulatedGames st)
                  else simulatedGames st),
               history := newHistory,
               currentMove := length newHistory - 1\<rparr>))"

text \<open>The click goes through when none of the guards of \<^verbatim>\<open>handleSquareClick\<close> fires.\<close>

definition accepted :: "state \<Rightarrow> nat \<Rightarrow> bool" where
  "accepted st i =
     (\<not> truthy (winner st) \<and> \<not> truthy (at (squares st) i)
      \<and> \<not> (gameMode st = Online \<and> \<not> isMyTurn st)
      \<and> \<not> (gameMode st = Online \<and> \<not> opponentConnected st)
      \<and> \<not> (gameMode st = Computer \<and> \<not> isXNext st))"

definition makeComputerMove :: "state \<Rightarrow> nat \<Rightarrow> state" where
  "makeComputerMove st rnd =
     (case computerChoice (squares st) rnd of
        None \<Rightarrow> st
      | Some i \<Rightarrow> handleSquareClick st i)"

text \<open>
  \<^verbatim>\<open>jumpToMove(move)\<close>: the argument is a JavaScript number, here an integer; the range
  check comes first and returns silently.
\<close>

definition jumpToMove :: "state \<Rightarrow> int \<Rightarrow> state" where
  "jumpToMove st move =
     (if move < 0 \<or> move \<ge> int (length (history st)) then st
      else if gameMode st = Online then st\<lparr>toasts := toasts st @ [NotAvailable]\<rparr>
      else
        st\<lparr>currentMove := nat move,
           squares := h_squares (history st ! nat move),
           isXNext := (h_currentPlayer (history st ! nat move) = StrO),
           winner := calculateWinner (h_squares (history st ! nat move))\<rparr>)"

definition resetGame :: "state \<Rightarrow> bool \<Rightarrow> state" where
  "resetGame st notifyOpponent =
     st\<lparr>squares := emptyBoard,
        isXNext := True,
        winner := Null,
        history := [],
        currentMove := 0,
        showConfetti := False,
        isMyTurn := (if gameMode st = Online then playerSymbol st = StrX else isMyTurn st),
        simulatedGames :=
          (if gameMode st = Online \<and> useSimulatedMode st \<and> roomCode st \<noteq> [] then
             (case simulatedGames st (roomCode st) of
                Some game \<Rightarrow>
                  updateSimulatedGame (simulatedGames st) (roomCode st)
                    (game\<lparr>g_squares := emptyBoard, g_isXNext := True, g_winner := Null\<rparr>)
              | None \<Rightarrow> simulatedGames st)
           else simulatedGames st),
        toasts := toasts st @ [GameReset]\<rparr>"

text \<open>
  \<^verbatim>\<open>setMode\<close> calls \<^verbatim>\<open>resetGame(false)\<close> from the same render, so the reset still
  sees the mode that is being left.
\<close>

definition setMode :: "state \<Rightarrow> GameMode \<Rightarrow> state" where
  "setMode st mode =
     (if mode = gameMode st then st
      else if mode = Online
        then (resetGame st False)\<lparr>gameMode := mode, showLobby := True, useSimulatedMode := True\<rparr>
      else (resetGame st False)\<lparr>gameMode := mode, roomCode := [], opponentConnected := False\<rparr>)"

section \<open>Rooms\<close>

text \<open>
  \<^verbatim>\<open>initializeSimulatedGame\<close> stores a fresh room under the code, marks the opponent as
  not connected and sets the timer of the simulated join.
\<close>

definition newGame :: "string \<Rightarrow> SimulatedGame" where
  "newGame gameId =
     \<lparr>g_id = gameId, g_squares = emptyBoard, g_isXNext = True, g_playerX = ''host'',
      g_playerO = None, g_winner = Null\<rparr>"

definition initializeSimulatedGame :: "state \<Rightarrow> string \<Rightarrow> state" where
  "initializeSimulatedGame st gameId =
     st\<lparr>simulatedGames := (simulatedGames st)(gameId \<mapsto> newGame gameId),
        opponentConnected := False,
        joinTimers := joinTimers st @ [gameId]\<rparr>"

text \<open>
  \<^verbatim>\<open>s.substring(start, end)\<close> on natural numbers: both ends are clamped to the length and
  swapped when out of order. \<^verbatim>\<open>toUpperCase\<close> on the characters of a base-36 numeral
  (digits, lower-case letters and the point) changes the letters only.
\<close>

definition substring :: "string \<Rightarrow> nat \<Rightarrow> nat \<Rightarrow> string" where
  "substring s start end' =
     (let a = min start (length s); b = min end' (length s)
      in take (max a b - min a b) (drop (min a b) s))"

definition toUpperChar :: "char \<Rightarrow> char" where
  "toUpperChar c =
     (if 97 \<le> (of_char c :: nat) \<and> (of_char c :: nat) \<le> 122
      then char_of ((of_char c :: nat) - 32) else c)"

definition toUpperCase :: "string \<Rightarrow> string" where
  "toUpperCase s = map toUpperChar s"

text \<open>
  \<^verbatim>\<open>createRoom\<close>: the room code is
  \<^verbatim>\<open>Math.random().toString(36).substring(2, 8).toUpperCase()\<close>. The numeral
  \<^verbatim>\<open>Math.random().toString(36)\<close> is the parameter \<open>rnd36\<close>: the text \<^verbatim>\<open>0.\<close> and the
  base-36 digits of the fraction drawn, as many as the number needs (\<^verbatim>\<open>0.i\<close> for 0.5), or
  \<^verbatim>\<open>0\<close> alone.
\<close>

definition createRoom :: "state \<Rightarrow> string \<Rightarrow> state" where
  "createRoom st rnd36 =
     (let newRoomCode = toUpperCase (substring rnd36 2 8);
          st1 = st\<lparr>roomCode := newRoomCode, isHost := True, playerSymbol := StrX\<rparr>;
          st2 = (if useSimulatedMode st then initializeSimulatedGame st1 newRoomCode else st1)
      in st2\<lparr>toasts := toasts st2 @ [RoomCreated newRoomCode]\<rparr>)"

section \<open>The specification's vocabulary\<close>

text \<open>
  The board is a 3 by 3 grid in row-major order. The specification names eight triples:
  the three rows, the three columns and the two diagonals, in that order.
\<close>

definition gridTriples :: "(nat \<times> nat \<times> nat) list" where
  "gridTriples =
     map (\<lambda>r. (3 * r, 3 * r + 1, 3 * r + 2)) [0, 1, 2]
     @ map (\<lambda>c. (c, c + 3, c + 6)) [0, 1, 2]
     @ [(0, 4, 8), (2, 4, 6)]"

text \<open>The three cells of a triple all carry the mark \<open>P\<close>.\<close>

definition tripleOf :: "jsval \<Rightarrow> jsval list \<Rightarrow> nat \<times> nat \<times> nat \<Rightarrow> bool" where
  "tripleOf P b t = (case t of (i, j, k) \<Rightarrow> b ! i = P \<and> b ! j = P \<and> b ! k = P)"

text \<open>A triple wins: its three cells are non-empty and equal.\<close>

definition wins :: "jsval list \<Rightarrow> nat \<times> nat \<times> nat \<Rightarrow> bool" where
  "wins b t = (tripleOf StrX b t \<or> tripleOf StrO b t)"

text \<open>A board of the data model: nine cells, each Empty (\<open>Null\<close>), X or O.\<close>

definition board9 :: "jsval list \<Rightarrow> bool" where
  "board9 b = (length b = 9 \<and> set b \<subseteq> {StrX, StrO, Null})"

text \<open>
  Placing the mark \<open>p\<close> on the empty cell \<open>i\<close> of \<open>b\<close> makes the evaluator answer \<open>p\<close>.
\<close>

definition winningMove :: "jsval list \<Rightarrow> jsval \<Rightarrow> nat \<Rightarrow> bool" where
  "winningMove b p i = (i < length b \<and> b ! i = Null \<and> calculateWinner (b[i := p]) = p)"

text \<open>The test of one line in the loop of \<^verbatim>\<open>calculateWinner\<close>.\<close>

definition complete :: "jsval list \<Rightarrow> nat \<times> nat \<times> nat \<Rightarrow> bool" where
  "complete sq t =
     (case t of (a, b, c) \<Rightarrow> truthy (at sq a) \<and> at sq a = at sq b \<and> at sq a = at sq c)"

text \<open>
  Legal alternating play: a two-player session on one device, started from the initial
  state by choosing the local mode, in which each step is a click on one of the nine
  buttons followed by the effect that recomputes the winner.
\<close>

inductive played :: "state \<Rightarrow> bool" where
  start: "played (setMode initialState Local)"
| move: "played s \<Longrightarrow> i < 9 \<Longrightarrow> played (winnerEffect (handleSquareClick s i))"

text \<open>
  A session against the computer: the component starts in this mode, and from there the
  handlers and the winner effect run in any order, \<^verbatim>\<open>makeComputerMove\<close> standing for
  the timer of the computer's move.
\<close>

inductive computerSession :: "state \<Rightarrow> bool" where
  opened: "computerSession initialState"
| effect: "computerSession s \<Longrightarrow> computerSession (winnerEffect s)"
| clicked: "computerSession s \<Longrightarrow> computerSession (handleSquareClick s i)"
| timer: "computerSession s \<Longrightarrow> computerSession (makeComputerMove s rnd)"
| jumped: "computerSession s \<Longrightarrow> computerSession (jumpToMove s move)"
| reset: "computerSession s \<Longrightarrow> computerSession (resetGame s n)"

text \<open>No O stands on the board or on any board of the history.\<close>

definition noO :: "state \<Rightarrow> bool" where
  "noO s = (gameMode s = Computer \<and> StrO \<notin> set (squares s)
            \<and> (\<forall>e \<in> set (history s). StrO \<notin> set (h_squares e)))"

subsection \<open>Sessions used as examples\<close>

definition click :: "state \<Rightarrow> nat \<Rightarrow> state" where
  "click st i = winnerEffect (handleSquareClick st i)"

text \<open>Local play: X on 0, O on 1, X on 4.\<close>

definition threeMoves :: state where
  "threeMoves = click (click (click (setMode initialState Local) 0) 1) 4"

text \<open>Local play: X on 0, O on 1, X on 4, O on 2, X on 8; X has the diagonal.\<close>

definition fiveMoves :: state where
  "fiveMoves = click (click threeMoves 2) 8"

text \<open>
  An online session: the host has created a room, the opponent has joined, and the host
  has played the centre.
\<close>

definition onlineRoom :: state where
  "onlineRoom = (createRoom (setMode initialState Online) ''0.4fzyo82mvyr'')\<lparr>opponentConnected := True\<rparr>"

definition onlineOneMove :: state where
  "onlineOneMove = click onlineRoom 4"

section \<open>Facts about the evaluator\<close>

lemma lines_gridTriples: "lines = gridTriples"
  by (simp add: lines_def gridTriples_def)

lemma length_gridTriples: "length gridTriples = 8"
  by (simp add: gridTriples_def)

lemma gridTriples_bound:
  "t \<in> set gridTriples \<Longrightarrow> fst t < 9 \<and> fst (snd t) < 9 \<and> snd (snd t) < 9"
  by (auto simp: gridTriples_def)

lemma checkLines_find:
  "checkLines sq ls = map_option (\<lambda>t. at sq (fst t)) (find (complete sq) ls)"
  by (induction sq ls rule: checkLines.induct) (auto simp: complete_def)

lemma find_None_nth: "find P xs = None \<longleftrightarrow> (\<forall>k<length xs. \<not> P (xs ! k))"
  by (auto simp: find_None_iff in_set_conv_nth)

lemma board9_cell: "board9 b \<Longrightarrow> i < 9 \<Longrightarrow> b ! i = StrX \<or> b ! i = StrO \<or> b ! i = Null"
proof -
  assume b: "board9 b" and i: "i < 9"
  then have "b ! i \<in> set b" by (simp add: board9_def)
  with b show ?thesis by (auto simp: board9_def)
qed

lemma complete_wins:
  assumes "board9 b" and "t \<in> set gridTriples"
  shows "complete b t = wins b t"
proof -
  obtain i j k where t: "t = (i, j, k)" by (cases t)
  with gridTriples_bound [OF assms(2)] have lt: "i < 9" "j < 9" "k < 9" by auto
  have len: "length b = 9" using assms(1) by (simp add: board9_def)
  from board9_cell [OF assms(1) lt(1)] show ?thesis
    by (auto simp: t complete_def wins_def tripleOf_def at_def truthy_def len lt)
qed

lemma find_complete_wins:
  "board9 b \<Longrightarrow> find (complete b) gridTriples = find (wins b) gridTriples"
  by (rule find_cong) (simp_all add: complete_wins)

lemma wins_fst:
  "wins b t \<Longrightarrow>
     (b ! fst t = StrX \<and> tripleOf StrX b t) \<or> (b ! fst t = StrO \<and> tripleOf StrO b t)"
  by (cases t) (auto simp: wins_def tripleOf_def)

lemma tripleOf_wins:
  "P = StrX \<or> P = StrO \<Longrightarrow> tripleOf P b t \<Longrightarrow> wins b t \<and> b ! fst t = P"
  by (cases t) (auto simp: wins_def tripleOf_def)

lemma everyNonNull_set: "everyNonNull b \<longleftrightarrow> Null \<notin> set b"
  by (auto simp: everyNonNull_def list_all_iff)

text \<open>On a board of the data model the evaluator is a search for the first winning triple.\<close>

lemma calculateWinner_find:
  assumes "board9 b"
  shows "calculateWinner b =
     (case find (wins b) gridTriples of
        Some t \<Rightarrow> b ! fst t
      | None \<Rightarrow> if Null \<notin> set b then StrDraw else Null)"
proof (cases "find (wins b) gridTriples")
  case None
  then show ?thesis
    using assms
    by (simp add: calculateWinner_def checkLines_find lines_gridTriples find_complete_wins
        everyNonNull_set)
next
  case (Some t)
  then have "t \<in> set gridTriples" by (auto simp: find_Some_iff)
  then have "fst t < 9" by (simp add: gridTriples_bound)
  then have "at b (fst t) = b ! fst t" using assms by (simp add: at_def board9_def)
  with Some show ?thesis
    using assms
    by (simp add: calculateWinner_def checkLines_find lines_gridTriples find_complete_wins)
qed

lemma calculateWinner_win:
  assumes "board9 b" and P: "P = StrX \<or> P = StrO"
  shows "calculateWinner b = P \<longleftrightarrow>
     (\<exists>k<8. tripleOf P b (gridTriples ! k) \<and> (\<forall>j<k. \<not> wins b (gridTriples ! j)))"
proof (cases "find (wins b) gridTriples")
  case None
  then have "\<not> wins b (gridTriples ! k)" if "k < 8" for k
    using that by (simp add: find_None_nth length_gridTriples)
  then have "\<not> tripleOf P b (gridTriples ! k)" if "k < 8" for k
    using that tripleOf_wins [OF P] by blast
  moreover have "calculateWinner b \<noteq> P"
    using None P by (auto simp: calculateWinner_find [OF assms(1)])
  ultimately show ?thesis by blast
next
  case (Some t)
  then obtain k where k: "k < 8" "wins b (gridTriples ! k)" "t = gridTriples ! k"
      "\<forall>j<k. \<not> wins b (gridTriples ! j)"
    by (auto simp: find_Some_iff length_gridTriples)
  have cw: "calculateWinner b = b ! fst t"
    using Some by (simp add: calculateWinner_find [OF assms(1)])
  show ?thesis
  proof
    assume "calculateWinner b = P"
    with cw have "b ! fst t = P" by simp
    with wins_fst [OF k(2)] k(3) P have "tripleOf P b (gridTriples ! k)" by auto
    with k show "\<exists>k<8. tripleOf P b (gridTriples ! k) \<and> (\<forall>j<k. \<not> wins b (gridTriples ! j))"
      by blast
  next
    assume "\<exists>k<8. tripleOf P b (gridTriples ! k) \<and> (\<forall>j<k. \<not> wins b (gridTriples ! j))"
    then obtain k' where k': "k' < 8" "tripleOf P b (gridTriples ! k')"
        "\<forall>j<k'. \<not> wins b (gridTriples ! j)"
      by blast
    from tripleOf_wins [OF P k'(2)]
    have w: "wins b (gridTriples ! k')" "b ! fst (gridTriples ! k') = P"
      by simp_all
    have "k' = k"
      using k(2,4) k'(3) w(1) by (meson nat_neq_iff)
    with w k(3) cw show "calculateWinner b = P" by simp
  qed
qed

lemma calculateWinner_no_win:
  assumes "board9 b"
  shows "(calculateWinner b = StrDraw
            \<longleftrightarrow> (\<forall>k<8. \<not> wins b (gridTriples ! k)) \<and> Null \<notin> set b)
       \<and> (calculateWinner b = Null
            \<longleftrightarrow> (\<forall>k<8. \<not> wins b (gridTriples ! k)) \<and> Null \<in> set b)"
proof (cases "find (wins b) gridTriples")
  case None
  then have "\<forall>k<8. \<not> wins b (gridTriples ! k)"
    by (simp add: find_None_nth length_gridTriples)
  with None show ?thesis
    by (simp add: calculateWinner_find [OF assms])
next
  case (Some t)
  then obtain k where k: "k < 8" "wins b (gridTriples ! k)" "t = gridTriples ! k"
    by (auto simp: find_Some_iff length_gridTriples)
  from wins_fst [OF k(2)] k(3) have "b ! fst t = StrX \<or> b ! fst t = StrO" by auto
  moreover have "calculateWinner b = b ! fst t"
    using Some by (simp add: calculateWinner_find [OF assms])
  ultimately show ?thesis using k by auto
qed

lemma calculateWinner_range:
  assumes "board9 b"
  shows "calculateWinner b \<in> {StrX, StrO, StrDraw, Null}"
proof (cases "find (wins b) gridTriples")
  case None
  then show ?thesis by (simp add: calculateWinner_find [OF assms])
next
  case (Some t)
  then have "wins b t" by (auto simp: find_Some_iff)
  from wins_fst [OF this] Some show ?thesis
    by (auto simp: calculateWinner_find [OF assms])
qed

lemma no_win_unless_truthy:
  assumes b: "board9 b" and nw: "\<not> truthy (calculateWinner b)" and k: "k < 8"
  shows "\<not> wins b (gridTriples ! k)"
proof (cases "find (wins b) gridTriples")
  case None
  with k show ?thesis by (simp add: find_None_nth length_gridTriples)
next
  case (Some t)
  then have "wins b t" by (auto simp: find_Some_iff)
  from wins_fst [OF this] have "truthy (b ! fst t)" by (auto simp: truthy_def)
  with Some nw show ?thesis by (simp add: calculateWinner_find [OF b])
qed

section \<open>Facts about play\<close>

lemma winnerEffect_fields:
  "squares (winnerEffect s) = squares s"
  "gameMode (winnerEffect s) = gameMode s"
  "winner (winnerEffect s) = calculateWinner (squares s)"
  "history (winnerEffect s) = history s"
  "currentMove (winnerEffect s) = currentMove s"
  "isXNext (winnerEffect s) = isXNext s"
  "isMyTurn (winnerEffect s) = isMyTurn s"
  "opponentConnected (winnerEffect s) = opponentConnected s"
  by (simp_all add: winnerEffect_def Let_def split: option.splits)

lemma handleSquareClick_local:
  assumes "gameMode s = Local"
  shows "gameMode (handleSquareClick s i) = Local"
    and "squares (handleSquareClick s i) = squares s
         \<or> (\<not> truthy (winner s)
            \<and> (squares (handleSquareClick s i) = store (squares s) i StrX
                \<or> squares (handleSquareClick s i) = store (squares s) i StrO))"
  using assms by (auto simp: handleSquareClick_def Let_def)

lemma board9_store:
  "board9 b \<Longrightarrow> i < 9 \<Longrightarrow> m = StrX \<or> m = StrO \<Longrightarrow> board9 (store b i m)"
  by (auto simp: board9_def store_def dest: subsetD [OF set_update_subset_insert])

text \<open>
  A move on a board without a decided line cannot complete a line of the other mark: such
  a line would avoid the cell just written and so would have stood before the move.
\<close>

lemma no_line_after_move:
  assumes b: "board9 b" and nw: "\<not> truthy (calculateWinner b)" and i: "i < 9"
    and m: "m' \<noteq> m" and m': "m' = StrX \<or> m' = StrO" and k: "k < 8"
  shows "\<not> tripleOf m' (store b i m) (gridTriples ! k)"
proof
  assume tr: "tripleOf m' (store b i m) (gridTriples ! k)"
  obtain x y z where t: "gridTriples ! k = (x, y, z)" by (cases "gridTriples ! k")
  have "gridTriples ! k \<in> set gridTriples" using k by (simp add: length_gridTriples)
  from gridTriples_bound [OF this] t have lt: "x < 9" "y < 9" "z < 9" by simp_all
  have len: "length b = 9" using b by (simp add: board9_def)
  have upd: "store b i m = b[i := m]" using i len by (simp add: store_def)
  have cell: "b ! j = m'" if "j < 9" "(b[i := m]) ! j = m'" for j
    using that m len by (cases "j = i") auto
  from tr have "tripleOf m' b (gridTriples ! k)"
    using lt by (simp add: t upd tripleOf_def cell)
  with m' have "wins b (gridTriples ! k)" by (auto simp: wins_def)
  with no_win_unless_truthy [OF b nw k] show False by contradiction
qed

lemma played_invariant:
  "played s \<Longrightarrow>
     gameMode s = Local \<and> board9 (squares s) \<and> winner s = calculateWinner (squares s)
     \<and> \<not> ((\<exists>k<8. tripleOf StrX (squares s) (gridTriples ! k))
          \<and> (\<exists>k<8. tripleOf StrO (squares s) (gridTriples ! k)))"
proof (induction rule: played.induct)
  case start
  have sq: "squares (setMode initialState Local) = replicate 9 Null"
    by (simp add: setMode_def initialState_def resetGame_def emptyBoard_def)
  have "\<not> tripleOf StrX (replicate 9 Null) (gridTriples ! k)" if "k < 8" for k
  proof -
    obtain x y z where t: "gridTriples ! k = (x, y, z)" by (cases "gridTriples ! k")
    have "gridTriples ! k \<in> set gridTriples" using that by (simp add: length_gridTriples)
    from gridTriples_bound [OF this] t have "x < 9" by simp
    then show ?thesis by (simp add: t tripleOf_def)
  qed
  moreover have "calculateWinner (replicate 9 Null) = Null" by code_simp
  moreover have "board9 (replicate 9 Null)" by (simp add: board9_def)
  moreover have "gameMode (setMode initialState Local) = Local"
      "winner (setMode initialState Local) = Null"
    by (simp_all add: setMode_def initialState_def resetGame_def)
  ultimately show ?case by (auto simp: sq)
next
  case (move s i)
  let ?s' = "handleSquareClick s i"
  from move.IH have inv: "gameMode s = Local" "board9 (squares s)"
      "winner s = calculateWinner (squares s)"
      "\<not> ((\<exists>k<8. tripleOf StrX (squares s) (gridTriples ! k))
          \<and> (\<exists>k<8. tripleOf StrO (squares s) (gridTriples ! k)))"
    by simp_all
  have mode: "gameMode ?s' = Local" by (rule handleSquareClick_local(1) [OF inv(1)])
  consider (same) "squares ?s' = squares s"
    | (putX) "\<not> truthy (winner s)" "squares ?s' = store (squares s) i StrX"
    | (putO) "\<not> truthy (winner s)" "squares ?s' = store (squares s) i StrO"
    using handleSquareClick_local(2) [OF inv(1), of i] by blast
  then have "board9 (squares ?s')
     \<and> \<not> ((\<exists>k<8. tripleOf StrX (squares ?s') (gridTriples ! k))
          \<and> (\<exists>k<8. tripleOf StrO (squares ?s') (gridTriples ! k)))"
  proof cases
    case same
    with inv show ?thesis by simp
  next
    case putX
    then have nw: "\<not> truthy (calculateWinner (squares s))" using inv(3) by simp
    have "\<not> tripleOf StrO (store (squares s) i StrX) (gridTriples ! k)" if "k < 8" for k
      using no_line_after_move [OF inv(2) nw move.hyps(2) _ _ that, of StrO StrX] by simp
    with putX board9_store [OF inv(2) move.hyps(2), of StrX] show ?thesis by auto
  next
    case putO
    then have nw: "\<not> truthy (calculateWinner (squares s))" using inv(3) by simp
    have "\<not> tripleOf StrX (store (squares s) i StrO) (gridTriples ! k)" if "k < 8" for k
      using no_line_after_move [OF inv(2) nw move.hyps(2) _ _ that, of StrX StrO] by simp
    with putO board9_store [OF inv(2) move.hyps(2), of StrO] show ?thesis by auto
  qed
  with mode show ?case by (simp add: winnerEffect_fields)
qed

section \<open>The evaluator's outcome\<close>

text \<open>
  C1: on every board of nine cells, \<^verbatim>\<open>calculateWinner\<close> gives exactly one of X, O, draw
  and null (in progress). It gives the mark \<open>P\<close> exactly when some triple among the eight
  lines (rows, then columns, then diagonals) carries \<open>P\<close> three times and no earlier triple
  wins; it gives draw exactly when no triple wins and no cell is empty; it gives null
  exactly when no triple wins and some cell is empty. The table of the code is the table
  of the specification. In every session reached by legal alternating play the board is
  such a board, the stored winner is its evaluation, and an X line and an O line never
  stand together.
\<close>

theorem evaluator_outcome:
  "lines = gridTriples
   \<and> (board9 b \<longrightarrow>
        calculateWinner b \<in> {StrX, StrO, StrDraw, Null}
      \<and> (calculateWinner b = StrX \<longleftrightarrow>
           (\<exists>k<8. tripleOf StrX b (gridTriples ! k) \<and> (\<forall>j<k. \<not> wins b (gridTriples ! j))))
      \<and> (calculateWinner b = StrO \<longleftrightarrow>
           (\<exists>k<8. tripleOf StrO b (gridTriples ! k) \<and> (\<forall>j<k. \<not> wins b (gridTriples ! j))))
      \<and> (calculateWinner b = StrDraw \<longleftrightarrow>
           (\<forall>k<8. \<not> wins b (gridTriples ! k)) \<and> Null \<notin> set b)
      \<and> (calculateWinner b = Null \<longleftrightarrow>
           (\<forall>k<8. \<not> wins b (gridTriples ! k)) \<and> Null \<in> set b))
   \<and> (played s \<longrightarrow>
        board9 (squares s) \<and> winner s = calculateWinner (squares s)
      \<and> \<not> ((\<exists>k<8. tripleOf StrX (squares s) (gridTriples ! k))
           \<and> (\<exists>k<8. tripleOf StrO (squares s) (gridTriples ! k))))"
proof (intro conjI impI)
  show "lines = gridTriples" by (rule lines_gridTriples)
next
  assume b: "board9 b"
  show "calculateWinner b \<in> {StrX, StrO, StrDraw, Null}" by (rule calculateWinner_range [OF b])
  show "calculateWinner b = StrX \<longleftrightarrow>
     (\<exists>k<8. tripleOf StrX b (gridTriples ! k) \<and> (\<forall>j<k. \<not> wins b (gridTriples ! j)))"
    by (rule calculateWinner_win [OF b]) simp
  show "calculateWinner b = StrO \<longleftrightarrow>
     (\<exists>k<8. tripleOf StrO b (gridTriples ! k) \<and> (\<forall>j<k. \<not> wins b (gridTriples ! j)))"
    by (rule calculateWinner_win [OF b]) simp
  show "calculateWinner b = StrDraw \<longleftrightarrow>
     (\<forall>k<8. \<not> wins b (gridTriples ! k)) \<and> Null \<notin> set b"
    using calculateWinner_no_win [OF b] by blast
  show "calculateWinner b = Null \<longleftrightarrow>
     (\<forall>k<8. \<not> wins b (gridTriples ! k)) \<and> Null \<in> set b"
    using calculateWinner_no_win [OF b] by blast
next
  assume p: "played s"
  show "board9 (squares s)" using played_invariant [OF p] by blast
  show "winner s = calculateWinner (squares s)" using played_invariant [OF p] by blast
  show "\<not> ((\<exists>k<8. tripleOf StrX (squares s) (gridTriples ! k))
           \<and> (\<exists>k<8. tripleOf StrO (squares s) (gridTriples ! k)))"
    using played_invariant [OF p] by blast
qed

theorem evaluator_outcome_witness:
  "board9 [StrX, StrO, StrO, Null, StrX, Null, Null, Null, StrX]
   \<and> calculateWinner [StrX, StrO, StrO, Null, StrX, Null, Null, Null, StrX] = StrX
   \<and> (\<exists>k<8. tripleOf StrX [StrX, StrO, StrO, Null, StrX, Null, Null, Null, StrX]
               (gridTriples ! k)
            \<and> (\<forall>j<k. \<not> wins [StrX, StrO, StrO, Null, StrX, Null, Null, Null, StrX]
                         (gridTriples ! j)))
   \<and> played fiveMoves
   \<and> squares fiveMoves = [StrX, StrO, StrO, Null, StrX, Null, Null, Null, StrX]
   \<and> winner fiveMoves = StrX
   \<and> \<not> ((\<exists>k<8. tripleOf StrX (squares fiveMoves) (gridTriples ! k))
        \<and> (\<exists>k<8. tripleOf StrO (squares fiveMoves) (gridTriples ! k)))"
proof -
  let ?b = "[StrX, StrO, StrO, Null, StrX, Null, Null, Null, StrX]"
  have b: "board9 ?b" by (simp add: board9_def)
  have cw: "calculateWinner ?b = StrX" by code_simp
  have p: "played fiveMoves"
    unfolding fiveMoves_def threeMoves_def click_def
    by (intro played.move played.start) simp_all
  have sq: "squares fiveMoves = ?b" by code_simp
  note inst = evaluator_outcome [of ?b fiveMoves]
  from inst b cw have ex: "\<exists>k<8. tripleOf StrX ?b (gridTriples ! k)
      \<and> (\<forall>j<k. \<not> wins ?b (gridTriples ! j))"
    by blast
  from inst p have w: "winner fiveMoves = calculateWinner (squares fiveMoves)"
    and excl: "\<not> ((\<exists>k<8. tripleOf StrX (squares fiveMoves) (gridTriples ! k))
        \<and> (\<exists>k<8. tripleOf StrO (squares fiveMoves) (gridTriples ! k)))"
    by blast+
  from w sq cw have "winner fiveMoves = StrX" by simp
  with b cw ex p sq excl show ?thesis by blast
qed

section \<open>The first winning move\<close>

lemma tryMoves_find:
  "tryMoves sq p js =
     (case find (\<lambda>i. at sq i = Null \<and> calculateWinner (store sq i p) = p) js of
        None \<Rightarrow> - 1 | Some i \<Rightarrow> int i)"
  by (induction js) auto

lemma winningMove_at:
  "i < length b \<Longrightarrow>
     (at b i = Null \<and> calculateWinner (store b i p) = p) = winningMove b p i"
  by (simp add: winningMove_def at_def store_def)

lemma findWinningMove_find:
  "findWinningMove b p =
     (case find (winningMove b p) [0..<length b] of None \<Rightarrow> - 1 | Some i \<Rightarrow> int i)"
proof -
  have "find (\<lambda>i. at b i = Null \<and> calculateWinner (store b i p) = p) [0..<length b]
        = find (winningMove b p) [0..<length b]"
    by (rule find_cong) (auto simp: winningMove_at)
  then show ?thesis by (simp add: findWinningMove_def tryMoves_find)
qed

lemma find_upt_Some:
  "find P [0..<n] = Some i \<longleftrightarrow> i < n \<and> P i \<and> (\<forall>j<i. \<not> P j)"
  by (auto simp: find_Some_iff)

lemma find_upt_None: "find P [0..<n] = None \<longleftrightarrow> (\<forall>i<n. \<not> P i)"
  by (auto simp: find_None_iff)

lemma findWinningMove_none:
  "findWinningMove b p = - 1 \<longleftrightarrow> (\<forall>i. \<not> winningMove b p i)"
proof (cases "find (winningMove b p) [0..<length b]")
  case None
  then have "\<forall>i. \<not> winningMove b p i"
    using find_upt_None [of "winningMove b p" "length b"] by (auto simp: winningMove_def)
  with None show ?thesis by (simp add: findWinningMove_find)
next
  case (Some k)
  then have "winningMove b p k" by (simp add: find_upt_Some)
  with Some show ?thesis by (auto simp: findWinningMove_find)
qed

lemma findWinningMove_index:
  "findWinningMove b p = int i \<longleftrightarrow> winningMove b p i \<and> (\<forall>j<i. \<not> winningMove b p j)"
proof (cases "find (winningMove b p) [0..<length b]")
  case None
  then have "\<not> winningMove b p i"
    using find_upt_None [of "winningMove b p" "length b"] by (auto simp: winningMove_def)
  with None show ?thesis by (simp add: findWinningMove_find)
next
  case (Some k)
  then have k: "winningMove b p k" "\<forall>j<k. \<not> winningMove b p j"
    by (simp_all add: find_upt_Some)
  have "i = k" if "winningMove b p i" "\<forall>j<i. \<not> winningMove b p j"
    using that k by (meson nat_neq_iff)
  moreover have "findWinningMove b p = int k"
    using Some by (simp add: findWinningMove_find)
  ultimately show ?thesis using k by auto
qed

lemma findWinningMove_bounds:
  "findWinningMove b p = - 1 \<or> (\<exists>i<length b. findWinningMove b p = int i)"
proof (cases "find (winningMove b p) [0..<length b]")
  case None
  then show ?thesis by (simp add: findWinningMove_find)
next
  case (Some k)
  then have "k < length b" by (simp add: find_upt_Some)
  with Some show ?thesis by (auto simp: findWinningMove_find)
qed

text \<open>
  C3: for every board and player, \<^verbatim>\<open>findWinningMove\<close> returns the index \<open>i\<close> exactly when
  \<open>i\<close> is the lowest index of an empty cell on which the player's mark makes the evaluator
  answer that player; it returns \<open>-1\<close> exactly when no cell does; and it returns nothing
  else than \<open>-1\<close> or an index of the board.
\<close>

theorem findWinningMove_first:
  "(\<forall>i. findWinningMove b p = int i
        \<longleftrightarrow> winningMove b p i \<and> (\<forall>j<i. \<not> winningMove b p j))
   \<and> (findWinningMove b p = - 1 \<longleftrightarrow> (\<forall>i. \<not> winningMove b p i))
   \<and> (findWinningMove b p = - 1 \<or> (\<exists>i<length b. findWinningMove b p = int i))"
  using findWinningMove_index [of b p] findWinningMove_none [of b p]
    findWinningMove_bounds [of b p]
  by blast

theorem findWinningMove_first_witness:
  "findWinningMove [StrX, StrX, Null, Null, StrO, Null, Null, Null, Null] StrX = 2
   \<and> winningMove [StrX, StrX, Null, Null, StrO, Null, Null, Null, Null] StrX 2
   \<and> \<not> winningMove [StrX, StrX, Null, Null, StrO, Null, Null, Null, Null] StrX 0
   \<and> \<not> winningMove [StrX, StrX, Null, Null, StrO, Null, Null, Null, Null] StrX 1
   \<and> findWinningMove [StrX, StrX, Null, Null, StrO, Null, Null, Null, Null] StrO = - 1
   \<and> \<not> winningMove [StrX, StrX, Null, Null, StrO, Null, Null, Null, Null] StrO 2"
proof -
  let ?b = "[StrX, StrX, Null, Null, StrO, Null, Null, Null, Null]"
  have x: "findWinningMove ?b StrX = int 2" by code_simp
  have o: "findWinningMove ?b StrO = - 1" by code_simp
  from x findWinningMove_first [of ?b StrX]
  have "winningMove ?b StrX 2 \<and> (\<forall>j<2. \<not> winningMove ?b StrX j)" by blast
  then have "winningMove ?b StrX 2" "\<not> winningMove ?b StrX 0" "\<not> winningMove ?b StrX 1"
    by simp_all
  moreover from o findWinningMove_first [of ?b StrO] have "\<not> winningMove ?b StrO 2"
    by blast
  ultimately show ?thesis using x o by simp
qed

section \<open>The computer opponent's ladder\<close>

lemma checkLines_truthy: "checkLines sq ls = Some w \<Longrightarrow> truthy w"
  by (induction sq ls rule: checkLines.induct) (auto split: if_splits)

lemma in_progress_guard:
  assumes "calculateWinner b = Null"
  shows "\<not> truthy (calculateWinner b)" and "\<not> everyNonNull b"
proof -
  show "\<not> truthy (calculateWinner b)" using assms by (simp add: truthy_def)
  show "\<not> everyNonNull b"
  proof (cases "checkLines b lines")
    case None
    with assms show ?thesis by (simp add: calculateWinner_def split: if_splits)
  next
    case (Some w)
    with assms have "w = Null" by (simp add: calculateWinner_def)
    with checkLines_truthy [OF Some] show ?thesis by (simp add: truthy_def)
  qed
qed

lemma findWinningMove_nat:
  assumes "findWinningMove b p \<noteq> - 1"
  shows "winningMove b p (nat (findWinningMove b p))
       \<and> (\<forall>j < nat (findWinningMove b p). \<not> winningMove b p j)"
proof -
  from assms findWinningMove_bounds [of b p]
  obtain i where i: "findWinningMove b p = int i" by auto
  with findWinningMove_index [of b p i] show ?thesis by simp
qed

lemma availableCorners_set:
  "c \<in> set (availableCorners b) \<longleftrightarrow> c \<in> {0, 2, 6, 8} \<and> at b c = Null"
  by (simp only: availableCorners_def set_filter) auto

lemma availableSquares_set:
  "c \<in> set (availableSquares b) \<longleftrightarrow> c < length b \<and> b ! c = Null"
  by (auto simp: availableSquares_def at_def)

lemma availableSquares_nonempty: "\<not> everyNonNull b \<Longrightarrow> availableSquares b \<noteq> []"
proof -
  assume "\<not> everyNonNull b"
  then have "Null \<in> set b" by (simp add: everyNonNull_set)
  then obtain c where "c < length b" "b ! c = Null" by (auto simp: in_set_conv_nth)
  then have "c \<in> set (availableSquares b)" by (simp add: availableSquares_set)
  then show ?thesis by auto
qed

lemma pick_in_set: "xs \<noteq> [] \<Longrightarrow> xs ! (rnd mod length xs) \<in> set xs"
  by simp

text \<open>
  The index that \<^verbatim>\<open>makeComputerMove\<close> hands to \<^verbatim>\<open>handleSquareClick\<close> on a board on
  which the game is in progress follows the ladder win, block, centre, empty corner, empty
  cell; on the board X, X, -, -, O, -, -, -, - it is 2, whatever the random draw.
\<close>

lemma computerChoice_ladder:
  assumes "calculateWinner b = Null"
  shows "(findWinningMove b StrO \<noteq> - 1 \<longrightarrow>
            computerChoice b rnd = Some (nat (findWinningMove b StrO))
          \<and> winningMove b StrO (nat (findWinningMove b StrO))
          \<and> (\<forall>j < nat (findWinningMove b StrO). \<not> winningMove b StrO j))
       \<and> (findWinningMove b StrO = - 1 \<and> findWinningMove b StrX \<noteq> - 1 \<longrightarrow>
            computerChoice b rnd = Some (nat (findWinningMove b StrX))
          \<and> winningMove b StrX (nat (findWinningMove b StrX))
          \<and> (\<forall>j < nat (findWinningMove b StrX). \<not> winningMove b StrX j))
       \<and> (findWinningMove b StrO = - 1 \<and> findWinningMove b StrX = - 1 \<and> at b 4 = Null \<longrightarrow>
            computerChoice b rnd = Some 4)
       \<and> (findWinningMove b StrO = - 1 \<and> findWinningMove b StrX = - 1 \<and> at b 4 \<noteq> Null
            \<and> (\<exists>c \<in> {0, 2, 6, 8}. at b c = Null) \<longrightarrow>
            (\<exists>c \<in> {0, 2, 6, 8}. at b c = Null \<and> computerChoice b rnd = Some c))
       \<and> (findWinningMove b StrO = - 1 \<and> findWinningMove b StrX = - 1 \<and> at b 4 \<noteq> Null
            \<and> \<not> (\<exists>c \<in> {0, 2, 6, 8}. at b c = Null) \<longrightarrow>
            (\<exists>c < length b. b ! c = Null \<and> computerChoice b rnd = Some c))
       \<and> computerChoice [StrX, StrX, Null, Null, StrO, Null, Null, Null, Null] rnd = Some 2"
proof -
  note g = in_progress_guard [OF assms]
  have win: "computerChoice b rnd = Some (nat (findWinningMove b StrO))"
    if "findWinningMove b StrO \<noteq> - 1"
    using that g by (simp add: computerChoice_def)
  have block: "computerChoice b rnd = Some (nat (findWinningMove b StrX))"
    if "findWinningMove b StrO = - 1" "findWinningMove b StrX \<noteq> - 1"
    using that g by (simp add: computerChoice_def)
  have centre: "computerChoice b rnd = Some 4"
    if "findWinningMove b StrO = - 1" "findWinningMove b StrX = - 1" "at b 4 = Null"
    using that g by (simp add: computerChoice_def)
  have corner: "\<exists>c \<in> {0, 2, 6, 8}. at b c = Null \<and> computerChoice b rnd = Some c"
    if "findWinningMove b StrO = - 1" "findWinningMove b StrX = - 1" "at b 4 \<noteq> Null"
      "\<exists>c \<in> {0, 2, 6, 8}. at b c = Null"
  proof -
    from that(4) obtain c0 where "c0 \<in> set (availableCorners b)"
      unfolding availableCorners_set by blast
    then have ne: "availableCorners b \<noteq> []" by (cases "availableCorners b") simp_all
    let ?c = "availableCorners b ! (rnd mod length (availableCorners b))"
    have "computerChoice b rnd = Some ?c"
      using that(1-3) g ne by (simp add: computerChoice_def)
    moreover have "?c \<in> {0, 2, 6, 8} \<and> at b ?c = Null"
      using pick_in_set [OF ne] availableCorners_set [of ?c b] by blast
    ultimately show ?thesis by blast
  qed
  have anywhere: "\<exists>c < length b. b ! c = Null \<and> computerChoice b rnd = Some c"
    if "findWinningMove b StrO = - 1" "findWinningMove b StrX = - 1" "at b 4 \<noteq> Null"
      "\<not> (\<exists>c \<in> {0, 2, 6, 8}. at b c = Null)"
  proof -
    have "c \<notin> set (availableCorners b)" for c
      using that(4) availableCorners_set [of c b] by blast
    then have e: "availableCorners b = []" by (cases "availableCorners b") auto
    have ne: "availableSquares b \<noteq> []" by (rule availableSquares_nonempty [OF g(2)])
    let ?c = "availableSquares b ! (rnd mod length (availableSquares b))"
    have "computerChoice b rnd = Some ?c"
      using that(1-3) g e ne by (simp add: computerChoice_def)
    moreover have "?c < length b \<and> b ! ?c = Null"
      using pick_in_set [OF ne] availableSquares_set [of ?c b] by blast
    ultimately show ?thesis by blast
  qed
  have ex: "computerChoice [StrX, StrX, Null, Null, StrO, Null, Null, Null, Null] rnd = Some 2"
  proof -
    let ?e = "[StrX, StrX, Null, Null, StrO, Null, Null, Null, Null]"
    have "calculateWinner ?e = Null" by code_simp
    moreover have "everyNonNull ?e = False" by code_simp
    moreover have "findWinningMove ?e StrO = - 1" by code_simp
    moreover have "findWinningMove ?e StrX = 2" by code_simp
    ultimately show ?thesis by (simp add: computerChoice_def truthy_def)
  qed
  show ?thesis
  proof (intro conjI impI)
    assume "findWinningMove b StrO \<noteq> - 1"
    then show "computerChoice b rnd = Some (nat (findWinningMove b StrO))"
      and "winningMove b StrO (nat (findWinningMove b StrO))"
      and "\<forall>j < nat (findWinningMove b StrO). \<not> winningMove b StrO j"
      using win findWinningMove_nat [of b StrO] by simp_all
  next
    assume a: "findWinningMove b StrO = - 1 \<and> findWinningMove b StrX \<noteq> - 1"
    then show "computerChoice b rnd = Some (nat (findWinningMove b StrX))"
      and "winningMove b StrX (nat (findWinningMove b StrX))"
      and "\<forall>j < nat (findWinningMove b StrX). \<not> winningMove b StrX j"
      using block findWinningMove_nat [of b StrX] by simp_all
  next
    assume "findWinningMove b StrO = - 1 \<and> findWinningMove b StrX = - 1 \<and> at b 4 = Null"
    then show "computerChoice b rnd = Some 4" using centre by simp
  next
    assume "findWinningMove b StrO = - 1 \<and> findWinningMove b StrX = - 1 \<and> at b 4 \<noteq> Null
            \<and> (\<exists>c \<in> {0, 2, 6, 8}. at b c = Null)"
    then show "\<exists>c \<in> {0, 2, 6, 8}. at b c = Null \<and> computerChoice b rnd = Some c"
      using corner by simp
  next
    assume "findWinningMove b StrO = - 1 \<and> findWinningMove b StrX = - 1 \<and> at b 4 \<noteq> Null
            \<and> \<not> (\<exists>c \<in> {0, 2, 6, 8}. at b c = Null)"
    then show "\<exists>c < length b. b ! c = Null \<and> computerChoice b rnd = Some c"
      using anywhere by simp
  next
    show "computerChoice [StrX, StrX, Null, Null, StrO, Null, Null, Null, Null] rnd = Some 2"
      by (rule ex)
  qed
qed

lemma computerChoice_ladder_examples:
  "calculateWinner [StrX, StrX, Null, StrO, StrO, Null, StrX, Null, Null] = Null
   \<and> findWinningMove [StrX, StrX, Null, StrO, StrO, Null, StrX, Null, Null] StrO = 5
   \<and> findWinningMove [StrX, StrX, Null, StrO, StrO, Null, StrX, Null, Null] StrX = 2
   \<and> computerChoice [StrX, StrX, Null, StrO, StrO, Null, StrX, Null, Null] 7 = Some 5
   \<and> calculateWinner [StrX, StrX, Null, Null, StrO, Null, Null, Null, Null] = Null
   \<and> findWinningMove [StrX, StrX, Null, Null, StrO, Null, Null, Null, Null] StrO = - 1
   \<and> findWinningMove [StrX, StrX, Null, Null, StrO, Null, Null, Null, Null] StrX = 2
   \<and> computerChoice [StrX, StrX, Null, Null, StrO, Null, Null, Null, Null] 7 = Some 2
   \<and> calculateWinner [StrX, Null, Null, Null, Null, Null, Null, Null, Null] = Null
   \<and> computerChoice [StrX, Null, Null, Null, Null, Null, Null, Null, Null] 7 = Some 4"
proof -
  let ?w = "[StrX, StrX, Null, StrO, StrO, Null, StrX, Null, Null]"
  let ?b = "[StrX, StrX, Null, Null, StrO, Null, Null, Null, Null]"
  let ?c = "[StrX, Null, Null, Null, Null, Null, Null, Null, Null]"
  have w: "calculateWinner ?w = Null" "findWinningMove ?w StrO = 5" "findWinningMove ?w StrX = 2"
    by code_simp+
  have b: "calculateWinner ?b = Null" "findWinningMove ?b StrO = - 1" "findWinningMove ?b StrX = 2"
    by code_simp+
  have c: "calculateWinner ?c = Null" "findWinningMove ?c StrO = - 1" "findWinningMove ?c StrX = - 1"
    "at ?c 4 = Null"
    by code_simp+
  from computerChoice_ladder [OF w(1), of 7] w(2) have "computerChoice ?w 7 = Some 5" by simp
  moreover from computerChoice_ladder [OF b(1), of 7] b(2,3) have "computerChoice ?b 7 = Some 2"
    by simp
  moreover from computerChoice_ladder [OF c(1), of 7] c(2,3,4) have "computerChoice ?c 7 = Some 4"
    by simp
  ultimately show ?thesis using w b c by simp
qed

text \<open>
  C2: the computer's move should follow the ladder and be played. The index is chosen as
  the ladder says, but it is handed to \<^verbatim>\<open>handleSquareClick\<close> of the same render, whose
  guard \<^verbatim>\<open>gameMode === "computer" && !isXNext\<close> holds whenever it is the computer's
  turn, so the click is refused. After X has opened on cell 0 against the computer, the
  game is in progress and it is O's turn; \<^verbatim>\<open>makeComputerMove\<close> chooses the centre, index
  4, and leaves the board, the turn and the history as they were: no O is placed.
\<close>

theorem makeComputerMove_refused:
  "gameMode (click initialState 0) = Computer
   \<and> \<not> isXNext (click initialState 0)
   \<and> winner (click initialState 0) = Null
   \<and> squares (click initialState 0) = [StrX, Null, Null, Null, Null, Null, Null, Null, Null]
   \<and> computerChoice (squares (click initialState 0)) 0 = Some 4
   \<and> squares (makeComputerMove (click initialState 0) 0)
       = [StrX, Null, Null, Null, Null, Null, Null, Null, Null]
   \<and> \<not> isXNext (makeComputerMove (click initialState 0) 0)
   \<and> history (makeComputerMove (click initialState 0) 0) = history (click initialState 0)"
  by code_simp

text \<open>
  The same holds in every state in which it is the computer's turn, whatever index is
  chosen, and so in a session against the computer no O ever reaches the board.
\<close>

lemma makeComputerMove_rejected:
  "gameMode st = Computer \<Longrightarrow> \<not> isXNext st \<Longrightarrow> makeComputerMove st rnd = st"
  by (auto simp: makeComputerMove_def handleSquareClick_def split: option.splits)

lemma set_store: "set (store b i v) \<subseteq> insert v (insert Undefined (set b))"
  by (auto simp: store_def dest: subsetD [OF set_update_subset_insert])

lemma noO_handleSquareClick: "noO s \<Longrightarrow> noO (handleSquareClick s i)"
proof -
  assume a: "noO s"
  have "StrO \<notin> set (store (squares s) i StrX)"
    using a set_store [of "squares s" i StrX] by (auto simp: noO_def)
  moreover have "e \<in> set (history s)" if "e \<in> set (take n (history s))" for e n
    using that by (rule in_set_takeD)
  ultimately show ?thesis
    using a by (auto simp: noO_def handleSquareClick_def Let_def)
qed

lemma noO_jumpToMove: "noO s \<Longrightarrow> noO (jumpToMove s move)"
  by (auto simp: noO_def jumpToMove_def)

lemma noO_resetGame: "noO s \<Longrightarrow> noO (resetGame s n)"
  by (auto simp: noO_def resetGame_def emptyBoard_def)

lemma noO_winnerEffect: "noO s \<Longrightarrow> noO (winnerEffect s)"
  by (simp add: noO_def winnerEffect_fields)

lemma noO_makeComputerMove: "noO s \<Longrightarrow> noO (makeComputerMove s rnd)"
  by (auto simp: makeComputerMove_def noO_handleSquareClick split: option.splits)

lemma computer_never_plays:
  "computerSession s \<Longrightarrow>
     gameMode s = Computer \<and> StrO \<notin> set (squares s)
     \<and> (\<forall>e \<in> set (history s). StrO \<notin> set (h_squares e))"
proof -
  assume "computerSession s"
  then have "noO s"
  proof (induction rule: computerSession.induct)
    case opened
    show ?case by (simp add: noO_def initialState_def emptyBoard_def)
  qed (simp_all add: noO_handleSquareClick noO_jumpToMove noO_resetGame noO_winnerEffect
      noO_makeComputerMove)
  then show ?thesis by (simp add: noO_def)
qed

section \<open>Clicks that are refused\<close>

text \<open>
  C4: for every session state, \<^verbatim>\<open>handleSquareClick\<close> changes nothing but the log of
  toasts (the board, the history, the current move, the turn and the outcome stay as they
  are) when the game is already over, when the cell is already occupied, in online mode
  when it is not the player's turn or the opponent has not joined, and in computer mode
  when it is not X's turn. In particular a click on an occupied cell never changes the
  board.
\<close>

theorem handleSquareClick_rejected:
  assumes "truthy (winner st) \<or> truthy (at (squares st) i)
           \<or> (gameMode st = Online \<and> \<not> isMyTurn st)
           \<or> (gameMode st = Online \<and> \<not> opponentConnected st)
           \<or> (gameMode st = Computer \<and> \<not> isXNext st)"
  shows "(handleSquareClick st i)\<lparr>toasts := toasts st\<rparr> = st
       \<and> squares (handleSquareClick st i) = squares st
       \<and> history (handleSquareClick st i) = history st
       \<and> currentMove (handleSquareClick st i) = currentMove st
       \<and> isXNext (handleSquareClick st i) = isXNext st
       \<and> isMyTurn (handleSquareClick st i) = isMyTurn st
       \<and> winner (handleSquareClick st i) = winner st
       \<and> calculateWinner (squares (handleSquareClick st i)) = calculateWinner (squares st)"
  using assms by (auto simp: handleSquareClick_def)

theorem handleSquareClick_rejected_witness:
  "truthy (at (squares threeMoves) 0)
   \<and> squares (handleSquareClick threeMoves 0) = squares threeMoves
   \<and> (handleSquareClick threeMoves 0)\<lparr>toasts := toasts threeMoves\<rparr> = threeMoves
   \<and> truthy (winner fiveMoves)
   \<and> squares (handleSquareClick fiveMoves 3) = squares fiveMoves
   \<and> gameMode onlineOneMove = Online \<and> \<not> isMyTurn onlineOneMove
   \<and> squares (handleSquareClick onlineOneMove 0) = squares onlineOneMove
   \<and> history (handleSquareClick onlineOneMove 0) = history onlineOneMove
   \<and> gameMode (click initialState 0) = Computer \<and> \<not> isXNext (click initialState 0)
   \<and> squares (handleSquareClick (click initialState 0) 1) = squares (click initialState 0)"
proof -
  have a: "truthy (at (squares threeMoves) 0)" by code_simp
  have b: "truthy (winner fiveMoves)" by code_simp
  have c: "gameMode onlineOneMove = Online" "\<not> isMyTurn onlineOneMove" by code_simp+
  have d: "gameMode (click initialState 0) = Computer" "\<not> isXNext (click initialState 0)"
    by code_simp+
  have "(handleSquareClick threeMoves 0)\<lparr>toasts := toasts threeMoves\<rparr> = threeMoves"
      "squares (handleSquareClick threeMoves 0) = squares threeMoves"
    using handleSquareClick_rejected [of threeMoves 0] a by blast+
  moreover have "squares (handleSquareClick fiveMoves 3) = squares fiveMoves"
    using handleSquareClick_rejected [of fiveMoves 3] b by blast
  moreover have "squares (handleSquareClick onlineOneMove 0) = squares onlineOneMove"
      "history (handleSquareClick onlineOneMove 0) = history onlineOneMove"
    using handleSquareClick_rejected [of onlineOneMove 0] c by blast+
  moreover have
    "squares (handleSquareClick (click initialState 0) 1) = squares (click initialState 0)"
    using handleSquareClick_rejected [of "click initialState 0" 1] d by blast
  ultimately show ?thesis using a b c d by blast
qed

section \<open>Reset\<close>

text \<open>
  C5, as amended: after \<^verbatim>\<open>resetGame\<close>, from any state, the board is nine empty cells,
  the history is empty (it has no entry, not one initial entry), the current move is 0, the
  outcome is in progress (the stored winner is null, and so is the evaluation of the
  board), and the turn is X.
\<close>

theorem resetGame_state:
  "squares (resetGame st n) = replicate 9 Null
   \<and> history (resetGame st n) = []
   \<and> currentMove (resetGame st n) = 0
   \<and> winner (resetGame st n) = Null
   \<and> calculateWinner (squares (resetGame st n)) = Null
   \<and> winner (winnerEffect (resetGame st n)) = Null
   \<and> isXNext (resetGame st n)"
proof -
  have "calculateWinner (replicate 9 Null) = Null" by code_simp
  then show ?thesis by (simp add: resetGame_def emptyBoard_def winnerEffect_fields)
qed

theorem resetGame_state_witness:
  "squares (resetGame fiveMoves True) = [Null, Null, Null, Null, Null, Null, Null, Null, Null]
   \<and> history (resetGame fiveMoves True) = []
   \<and> winner (resetGame fiveMoves True) = Null"
  using resetGame_state [of fiveMoves True] by (simp add: numeral_eq_Suc)

text \<open>
  The claim as written asks for a history of one entry, the empty board. After five moves
  and a reset, and after a reset of the initial state, the history has no entry.
\<close>

theorem resetGame_counterexample:
  "length (history fiveMoves) = 5 \<and> length (history (resetGame fiveMoves True)) = 0
   \<and> length (history (resetGame initialState True)) = 0"
  by code_simp

section \<open>Time travel\<close>

text \<open>
  C6: truncation law. In a session that is not online, with a history of length \<open>L\<close> and
  an index \<open>0 \<le> i < L\<close>, \<^verbatim>\<open>jumpToMove(i)\<close> (with or without the winner effect after it)
  followed by an accepted click leaves a history of length \<open>i + 2\<close>: the entries up to \<open>i\<close>
  are the old ones, every old entry after \<open>i\<close> is gone, and the one entry after \<open>i\<close> is the
  snapshot of the new board; the current move is \<open>i + 1\<close>.
\<close>

theorem truncation_law:
  assumes "gameMode st \<noteq> Online" and "0 \<le> i" and "i < int (length (history st))"
    and "s1 = jumpToMove st i \<or> s1 = winnerEffect (jumpToMove st i)"
    and "accepted s1 k"
  shows "history (handleSquareClick s1 k) =
           take (nat i + 1) (history st)
           @ [\<lparr>h_squares = store (h_squares (history st ! nat i)) k
                             (if h_currentPlayer (history st ! nat i) = StrO then StrX else StrO),
               h_currentPlayer =
                 (if h_currentPlayer (history st ! nat i) = StrO then StrX else StrO)\<rparr>]
       \<and> length (history (handleSquareClick s1 k)) = nat i + 2
       \<and> currentMove (handleSquareClick s1 k) = nat i + 1
       \<and> squares (handleSquareClick s1 k) = h_squares (last (history (handleSquareClick s1 k)))
       \<and> (\<forall>j \<le> nat i. history (handleSquareClick s1 k) ! j = history st ! j)"
proof -
  have f: "history s1 = history st" "currentMove s1 = nat i" "gameMode s1 = gameMode st"
      "squares s1 = h_squares (history st ! nat i)"
      "isXNext s1 = (h_currentPlayer (history st ! nat i) = StrO)"
    using assms(1-4) by (auto simp: jumpToMove_def winnerEffect_fields)
  have len: "nat i + 1 \<le> length (history st)" using assms(2,3) by simp
  have h: "history (handleSquareClick s1 k) =
           take (nat i + 1) (history st)
           @ [\<lparr>h_squares = store (h_squares (history st ! nat i)) k
                             (if h_currentPlayer (history st ! nat i) = StrO then StrX else StrO),
               h_currentPlayer =
                 (if h_currentPlayer (history st ! nat i) = StrO then StrX else StrO)\<rparr>]"
    and c: "currentMove (handleSquareClick s1 k) = length (history (handleSquareClick s1 k)) - 1"
    and sq: "squares (handleSquareClick s1 k) = h_squares (last (history (handleSquareClick s1 k)))"
    using assms(1,5) f by (auto simp: handleSquareClick_def accepted_def Let_def)
  have l: "length (history (handleSquareClick s1 k)) = nat i + 2"
    using len by (simp add: h)
  have "history (handleSquareClick s1 k) ! j = history st ! j" if "j \<le> nat i" for j
    using that len by (simp add: h nth_append)
  with h l c sq show ?thesis by simp
qed

theorem truncation_law_witness:
  "gameMode fiveMoves \<noteq> Online \<and> (0::int) \<le> 1 \<and> 1 < int (length (history fiveMoves))
   \<and> length (history fiveMoves) = 5
   \<and> accepted (winnerEffect (jumpToMove fiveMoves 1)) 8
   \<and> length (history (handleSquareClick (winnerEffect (jumpToMove fiveMoves 1)) 8)) = 3
   \<and> currentMove (handleSquareClick (winnerEffect (jumpToMove fiveMoves 1)) 8) = 2
   \<and> history (handleSquareClick (winnerEffect (jumpToMove fiveMoves 1)) 8) ! 0
       = history fiveMoves ! 0
   \<and> history (handleSquareClick (winnerEffect (jumpToMove fiveMoves 1)) 8) ! 1
       = history fiveMoves ! 1"
proof -
  have a: "gameMode fiveMoves \<noteq> Online" by code_simp
  have b: "1 < int (length (history fiveMoves))" "length (history fiveMoves) = 5" by code_simp+
  have c: "accepted (winnerEffect (jumpToMove fiveMoves 1)) 8" by code_simp
  let ?s = "handleSquareClick (winnerEffect (jumpToMove fiveMoves 1)) 8"
  have t: "length (history ?s) = nat 1 + 2 \<and> currentMove ?s = nat 1 + 1
      \<and> (\<forall>j \<le> nat 1. history ?s ! j = history fiveMoves ! j)"
  proof -
    have z: "(0::int) \<le> 1" by simp
    have e: "winnerEffect (jumpToMove fiveMoves 1) = jumpToMove fiveMoves 1
        \<or> winnerEffect (jumpToMove fiveMoves 1) = winnerEffect (jumpToMove fiveMoves 1)"
      by simp
    from truncation_law [OF a z b(1) e c] show ?thesis by blast
  qed
  then have "length (history ?s) = 3" "currentMove ?s = 2" by simp_all
  moreover from t have "history ?s ! 0 = history fiveMoves ! 0"
      "history ?s ! 1 = history fiveMoves ! 1"
    by simp_all
  ultimately show ?thesis using a b c by simp
qed

text \<open>
  C7: history round trip. In a session that is not online and for every index
  \<open>0 \<le> i < History.length\<close>, after \<^verbatim>\<open>jumpToMove(i)\<close> the board is the board stored at
  \<open>i\<close>, the current move is \<open>i\<close>, the winner is the evaluation of that board (also after
  the winner effect), X is next exactly when the stored player is O, and the history is
  what it was.
\<close>

theorem jumpToMove_restores:
  assumes "gameMode st \<noteq> Online" and "0 \<le> i" and "i < int (length (history st))"
  shows "squares (jumpToMove st i) = h_squares (history st ! nat i)
       \<and> currentMove (jumpToMove st i) = nat i
       \<and> winner (jumpToMove st i) = calculateWinner (h_squares (history st ! nat i))
       \<and> winner (winnerEffect (jumpToMove st i))
           = calculateWinner (h_squares (history st ! nat i))
       \<and> isXNext (jumpToMove st i) = (h_currentPlayer (history st ! nat i) = StrO)
       \<and> history (jumpToMove st i) = history st
       \<and> history (winnerEffect (jumpToMove st i)) = history st"
  using assms by (simp add: jumpToMove_def winnerEffect_fields)

theorem jumpToMove_restores_witness:
  "gameMode fiveMoves \<noteq> Online \<and> (0::int) \<le> 1 \<and> 1 < int (length (history fiveMoves))
   \<and> squares fiveMoves = [StrX, StrO, StrO, Null, StrX, Null, Null, Null, StrX]
   \<and> squares (jumpToMove fiveMoves 1) = [StrX, StrO, Null, Null, Null, Null, Null, Null, Null]
   \<and> currentMove (jumpToMove fiveMoves 1) = 1
   \<and> winner (jumpToMove fiveMoves 1) = Null
   \<and> isXNext (jumpToMove fiveMoves 1)
   \<and> length (history (jumpToMove fiveMoves 1)) = 5"
proof -
  have a: "gameMode fiveMoves \<noteq> Online" by code_simp
  have z: "(0::int) \<le> 1" by simp
  have b: "1 < int (length (history fiveMoves))" "length (history fiveMoves) = 5" by code_simp+
  have e: "h_squares (history fiveMoves ! nat 1)
      = [StrX, StrO, Null, Null, Null, Null, Null, Null, Null]"
    "h_currentPlayer (history fiveMoves ! nat 1) = StrO"
    "calculateWinner (h_squares (history fiveMoves ! nat 1)) = Null"
    "squares fiveMoves = [StrX, StrO, StrO, Null, StrX, Null, Null, Null, StrX]"
    by code_simp+
  from jumpToMove_restores [OF a z b(1)] e b(2)
  have "squares (jumpToMove fiveMoves 1) = [StrX, StrO, Null, Null, Null, Null, Null, Null, Null]"
    "currentMove (jumpToMove fiveMoves 1) = 1"
    "winner (jumpToMove fiveMoves 1) = Null"
    "isXNext (jumpToMove fiveMoves 1)"
    "length (history (jumpToMove fiveMoves 1)) = 5"
    by simp_all
  with a z b e(4) show ?thesis by blast
qed

text \<open>
  C8, as amended: in online mode \<^verbatim>\<open>jumpToMove\<close> never changes the board, the history,
  the current move, the turn or the outcome, for any index; for every index within the
  history it sends the toast "Not available" and changes nothing else.
\<close>

theorem jumpToMove_online:
  assumes "gameMode st = Online"
  shows "squares (jumpToMove st move) = squares st
       \<and> history (jumpToMove st move) = history st
       \<and> currentMove (jumpToMove st move) = currentMove st
       \<and> isXNext (jumpToMove st move) = isXNext st
       \<and> isMyTurn (jumpToMove st move) = isMyTurn st
       \<and> winner (jumpToMove st move) = winner st
       \<and> (0 \<le> move \<and> move < int (length (history st))
            \<longrightarrow> jumpToMove st move = st\<lparr>toasts := toasts st @ [NotAvailable]\<rparr>)"
  using assms by (simp add: jumpToMove_def)

theorem jumpToMove_online_witness:
  "gameMode onlineOneMove = Online \<and> (0::int) \<le> 0 \<and> 0 < int (length (history onlineOneMove))
   \<and> squares (jumpToMove onlineOneMove 0) = squares onlineOneMove
   \<and> history (jumpToMove onlineOneMove 0) = history onlineOneMove
   \<and> toasts (jumpToMove onlineOneMove 0) = toasts onlineOneMove @ [NotAvailable]"
proof -
  have a: "gameMode onlineOneMove = Online" by code_simp
  have b: "0 < int (length (history onlineOneMove))" by code_simp
  from jumpToMove_online [OF a, of 0] b
  have "jumpToMove onlineOneMove 0 = onlineOneMove\<lparr>toasts := toasts onlineOneMove @ [NotAvailable]\<rparr>"
    "squares (jumpToMove onlineOneMove 0) = squares onlineOneMove"
    "history (jumpToMove onlineOneMove 0) = history onlineOneMove"
    by simp_all
  then show ?thesis using a b by simp
qed

text \<open>
  The claim as written promises the signal for every index. In the online session just
  entered the history is empty, so index 0 is out of range: the range check returns first
  and no toast is sent.
\<close>

theorem jumpToMove_online_counterexample:
  "gameMode (setMode initialState Online) = Online
   \<and> history (setMode initialState Online) = []
   \<and> toasts (setMode initialState Online) = [GameReset]
   \<and> toasts (jumpToMove (setMode initialState Online) 0) = [GameReset]"
  by code_simp

text \<open>
  C10: for every session state and every index outside the valid range
  \<open>[0, History.length)\<close>, \<^verbatim>\<open>jumpToMove\<close> is a silent no-op: the whole state, the board,
  the history, the current move, the turn, the outcome and the log of toasts included, is
  what it was.
\<close>

theorem jumpToMove_out_of_range:
  "move < 0 \<or> int (length (history st)) \<le> move \<Longrightarrow> jumpToMove st move = st"
  by (auto simp: jumpToMove_def)

theorem jumpToMove_out_of_range_witness:
  "jumpToMove threeMoves 3 = threeMoves \<and> jumpToMove threeMoves (- 1) = threeMoves"
proof -
  have "int (length (history threeMoves)) \<le> 3" by code_simp
  then show ?thesis
    using jumpToMove_out_of_range [of 3 threeMoves] jumpToMove_out_of_range [of "- 1" threeMoves]
    by simp
qed

section \<open>Room codes\<close>

text \<open>
  C9: every call of \<^verbatim>\<open>createRoom\<close> should give a room code of exactly six upper-case
  alphanumeric characters and a room with an empty board, host X and no joiner. The code
  takes the characters 2 to 7 of \<^verbatim>\<open>Math.random().toString(36)\<close>, which has fewer than
  eight characters when the number drawn has a short base-36 expansion: for 0.5 it is
  \<^verbatim>\<open>0.i\<close> and the room code is the single character \<^verbatim>\<open>I\<close>.
\<close>

theorem createRoom_short_code:
  "roomCode (createRoom (setMode initialState Online) ''0.i'') = ''I''
   \<and> length (roomCode (createRoom (setMode initialState Online) ''0.i'')) = 1"
  by code_simp

text \<open>
  The length of the room code is six only when the numeral has at least eight characters;
  the room itself is as described.
\<close>

lemma length_substring: "length (substring s 2 8) = min 6 (length s - 2)"
  by (auto simp: substring_def Let_def min_def max_def)

lemma createRoom_code_length:
  "length (roomCode (createRoom st rnd36)) = min 6 (length rnd36 - 2)"
  by (simp add: createRoom_def Let_def initializeSimulatedGame_def toUpperCase_def
      length_substring)

lemma createRoom_room:
  assumes "useSimulatedMode st"
  shows "simulatedGames (createRoom st rnd36) (roomCode (createRoom st rnd36)) =
           Some \<lparr>g_id = roomCode (createRoom st rnd36), g_squares = replicate 9 Null,
                 g_isXNext = True, g_playerX = ''host'', g_playerO = None, g_winner = Null\<rparr>"
    and "playerSymbol (createRoom st rnd36) = StrX"
    and "isHost (createRoom st rnd36)"
    and "\<not> opponentConnected (createRoom st rnd36)"
  using assms
  by (simp_all add: createRoom_def Let_def initializeSimulatedGame_def newGame_def emptyBoard_def)

end
